theory Spec2Isabelle
  imports Complex_Main "HOL-Library.Multiset"
begin

section \<open>Quality flags for in-situ soil moisture: the data model\<close>

text \<open>
  The program works on a pandas DataFrame: one column per variable, one row per hourly
  timestamp.  A float cell is either a number or NaN (a missing sample); it is modelled
  as \<open>real option\<close>, with \<open>None\<close> for NaN.  Arithmetic on cells is exact (no rounding
  error and no negative zero), and measurements are finite.  A division of two columns
  can produce an infinity, so quotient columns have the type \<open>fl\<close>.
\<close>

type_synonym cell = "real option"

datatype fl = NaN | MInf | Fin real | PInf

datatype py_error = AttributeError | IndexError

text \<open>
  The table.  The required columns are \<open>soil_moisture\<close> and \<open>qflag\<close> (one set of flag
  codes per row, each row owning its set); \<open>timestamps\<close> is the index, strictly
  increasing, so selecting rows by label is selecting them by position.  Every other
  column may be absent (\<open>None\<close>): the five optional inputs, the two derivatives written
  by \<open>apply_savgol\<close>, and the columns the detectors write.
\<close>

record dataframe =
  timestamps :: "int list"
  soil_moisture :: "cell list"
  qflag :: "nat set list"
  soil_temperature :: "cell list option"
  air_temperature :: "cell list option"
  gldas_soil_temperature :: "cell list option"
  precipitation :: "cell list option"
  gldas_precipitation :: "cell list option"
  deriv1 :: "cell list option"
  deriv2 :: "cell list option"
  std_x2 :: "cell list option"
  rise24h :: "cell list option"
  rise1h :: "cell list option"
  gl_std_x2 :: "cell list option"
  gl_rise24h :: "cell list option"
  gl_rise1h :: "cell list option"
  gldas_precipitation_total :: "cell list option"
  criteria1 :: "fl list option"
  criteria2 :: "fl list option"
  criteria3 :: "fl list option"
  criteria4 :: "cell list option"
  spike_2h :: "bool list option"
  spike :: "bool list option"

definition nrows :: "dataframe \<Rightarrow> nat" where
  "nrows df = length (soil_moisture df)"

definition col_ok :: "nat \<Rightarrow> 'a list option \<Rightarrow> bool" where
  "col_ok n c = (case c of None \<Rightarrow> True | Some xs \<Rightarrow> length xs = n)"

text \<open>In a DataFrame every input column has as many cells as the table has rows.\<close>

definition wf_table :: "dataframe \<Rightarrow> bool" where
  "wf_table df =
     (length (timestamps df) = nrows df \<and> length (qflag df) = nrows df \<and>
      col_ok (nrows df) (soil_temperature df) \<and> col_ok (nrows df) (air_temperature df) \<and>
      col_ok (nrows df) (gldas_soil_temperature df) \<and> col_ok (nrows df) (precipitation df) \<and>
      col_ok (nrows df) (gldas_precipitation df) \<and> col_ok (nrows df) (deriv1 df) \<and>
      col_ok (nrows df) (deriv2 df))"

section \<open>Float cells: comparison and arithmetic\<close>

text \<open>Every comparison with NaN is false.\<close>

fun cgt :: "cell \<Rightarrow> cell \<Rightarrow> bool" where
  "cgt (Some a) (Some b) = (b < a)"
| "cgt _ _ = False"

fun clt :: "cell \<Rightarrow> cell \<Rightarrow> bool" where
  "clt (Some a) (Some b) = (a < b)"
| "clt _ _ = False"

fun ceq :: "cell \<Rightarrow> cell \<Rightarrow> bool" where
  "ceq (Some a) (Some b) = (a = b)"
| "ceq _ _ = False"

fun csub :: "cell \<Rightarrow> cell \<Rightarrow> cell" where
  "csub (Some a) (Some b) = Some (a - b)"
| "csub _ _ = None"

fun fgt :: "fl \<Rightarrow> real \<Rightarrow> bool" where
  "fgt (Fin a) c = (c < a)"
| "fgt PInf c = True"
| "fgt _ c = False"

fun flt :: "fl \<Rightarrow> real \<Rightarrow> bool" where
  "flt (Fin a) c = (a < c)"
| "flt MInf c = True"
| "flt _ c = False"

text \<open>IEEE division of two cells: a nonzero number over zero is an infinity, 0/0 is NaN.\<close>

fun fdiv :: "cell \<Rightarrow> cell \<Rightarrow> fl" where
  "fdiv (Some a) (Some b) =
     (if b \<noteq> 0 then Fin (a / b) else if 0 < a then PInf else if a < 0 then MInf else NaN)"
| "fdiv _ _ = NaN"

fun fabs :: "fl \<Rightarrow> fl" where
  "fabs (Fin a) = Fin \<bar>a\<bar>"
| "fabs MInf = PInf"
| "fabs PInf = PInf"
| "fabs NaN = NaN"

text \<open>
  \<open>round(x, 3)\<close> of numpy: multiply by 1000, round to the nearest integer with ties to
  the even one, divide by 1000.
\<close>

definition rint :: "real \<Rightarrow> int" where
  "rint x =
     (let f = \<lfloor>x\<rfloor>; d = x - of_int f
      in if d < 1 / 2 then f else if 1 / 2 < d then f + 1 else if even f then f else f + 1)"

fun fround3 :: "fl \<Rightarrow> fl" where
  "fround3 (Fin a) = Fin (of_int (rint (a * 1000)) / 1000)"
| "fround3 x = x"

fun dropna :: "cell list \<Rightarrow> real list" where
  "dropna [] = []"
| "dropna (None # xs) = dropna xs"
| "dropna (Some x # xs) = x # dropna xs"

definition mean :: "real list \<Rightarrow> real" where
  "mean xs = sum_list xs / real (length xs)"

definition ssqdm :: "real list \<Rightarrow> real" where
  "ssqdm xs = sum_list (map (\<lambda>x. (x - mean xs)\<^sup>2) xs)"

section \<open>The pandas column operations the detectors use\<close>

text \<open>
  \<open>shift(k)\<close> moves a column down by \<open>k\<close> rows (up when \<open>k\<close> is negative) and fills the
  freed cells; the length is kept.
\<close>

definition shift :: "'a \<Rightarrow> int \<Rightarrow> 'a list \<Rightarrow> 'a list" where
  "shift fill k xs =
     (if 0 \<le> k then take (length xs) (replicate (nat k) fill @ xs)
      else drop (nat (- k)) xs @ replicate (min (nat (- k)) (length xs)) fill)"

definition diff :: "nat \<Rightarrow> cell list \<Rightarrow> cell list" where
  "diff k xs = map2 csub xs (shift None (int k) xs)"

text \<open>
  A trailing window of \<open>w\<close> rows ending at row \<open>t\<close>, cut at the start of the column.
\<close>

definition trailing :: "nat \<Rightarrow> 'a list \<Rightarrow> nat \<Rightarrow> 'a list" where
  "trailing w xs t = drop (Suc t - w) (take (Suc t) xs)"

text \<open>
  \<open>rolling(window=w, min_periods=m).std()\<close>: the sample standard deviation (one degree
  of freedom removed) of the samples present in the trailing window; NaN when fewer
  than \<open>m\<close> samples are present, and also when fewer than two are, since the divisor
  would be zero.
\<close>

definition rolling_std :: "nat \<Rightarrow> nat \<Rightarrow> cell list \<Rightarrow> cell list" where
  "rolling_std m w xs =
     map (\<lambda>t. let v = dropna (trailing w xs t)
               in if max m 1 \<le> length v \<and> 1 < length v
                  then Some (sqrt (ssqdm v / (real (length v) - 1))) else None)
       [0..<length xs]"

definition rolling_sum :: "nat \<Rightarrow> nat \<Rightarrow> cell list \<Rightarrow> cell list" where
  "rolling_sum m w xs =
     map (\<lambda>t. let v = dropna (trailing w xs t)
               in if m \<le> length v then Some (sum_list v) else None)
       [0..<length xs]"

definition times2 :: "cell list \<Rightarrow> cell list" where
  "times2 xs = map (map_option (\<lambda>x. x * 2)) xs"

text \<open>
  \<open>df[mask].index\<close>: the rows where the mask holds; then
  \<open>df.qflag[index].apply(lambda x: x.add(c))\<close> adds the code to the set of each of them.
\<close>

definition mask_index :: "bool list \<Rightarrow> nat list" where
  "mask_index bs = filter (\<lambda>t. bs ! t) [0..<length bs]"

definition add_flag :: "nat \<Rightarrow> nat list \<Rightarrow> nat set list \<Rightarrow> nat set list" where
  "add_flag c index q = fold (\<lambda>t q'. q'[t := insert c (q' ! t)]) index q"

section \<open>The threshold detectors\<close>

definition flag_c01 :: "dataframe \<Rightarrow> dataframe" where
  "flag_c01 df =
     (let low_boundary = 0;
          index = mask_index (map (\<lambda>x. clt x (Some low_boundary)) (soil_moisture df))
      in if index \<noteq> [] then df\<lparr>qflag := add_flag 1 index (qflag df)\<rparr> else df)"

definition flag_c02 :: "dataframe \<Rightarrow> dataframe" where
  "flag_c02 df =
     (let upper_boundary = 60;
          index = mask_index (map (\<lambda>x. cgt x (Some upper_boundary)) (soil_moisture df))
      in if index \<noteq> [] then df\<lparr>qflag := add_flag 2 index (qflag df)\<rparr> else df)"

text \<open>
  \<open>if not hwsd: return\<close>: Python's \<open>not\<close> holds for \<open>None\<close> and for the number zero.
\<close>

definition falsy :: "real option \<Rightarrow> bool" where
  "falsy hwsd = (case hwsd of None \<Rightarrow> True | Some h \<Rightarrow> h = 0)"

definition flag_c03 :: "dataframe \<Rightarrow> real option \<Rightarrow> dataframe" where
  "flag_c03 df hwsd =
     (if falsy hwsd then df
      else let index = mask_index (map (\<lambda>x. cgt x hwsd) (soil_moisture df))
           in if index \<noteq> [] then df\<lparr>qflag := add_flag 3 index (qflag df)\<rparr> else df)"

definition flag_d01 :: "dataframe \<Rightarrow> dataframe" where
  "flag_d01 df =
     (case soil_temperature df of
        None \<Rightarrow> df
      | Some st \<Rightarrow>
          let index = mask_index (map (\<lambda>x. clt x (Some 0)) st)
          in if index \<noteq> [] then df\<lparr>qflag := add_flag 4 index (qflag df)\<rparr> else df)"

definition flag_d02 :: "dataframe \<Rightarrow> dataframe" where
  "flag_d02 df =
     (case air_temperature df of
        None \<Rightarrow> df
      | Some st \<Rightarrow>
          let index = mask_index (map (\<lambda>x. clt x (Some 0)) st)
          in if index \<noteq> [] then df\<lparr>qflag := add_flag 5 index (qflag df)\<rparr> else df)"

definition flag_d03 :: "dataframe \<Rightarrow> dataframe" where
  "flag_d03 df =
     (case gldas_soil_temperature df of
        None \<Rightarrow> df
      | Some st \<Rightarrow>
          let index = mask_index (map (\<lambda>x. clt x (Some 0)) st)
          in if index \<noteq> [] then df\<lparr>qflag := add_flag 6 index (qflag df)\<rparr> else df)"

section \<open>Rise of soil moisture without precipitation\<close>

definition mand :: "bool list \<Rightarrow> bool list \<Rightarrow> bool list" where
  "mand xs ys = map2 (\<and>) xs ys"

definition mor :: "bool list \<Rightarrow> bool list \<Rightarrow> bool list" where
  "mor xs ys = map2 (\<or>) xs ys"

text \<open>
  The right-hand sides the two rise detectors share: twice the rolling standard
  deviation of soil moisture, and the mask \<open>(rise1h > 0) & (rise24h > std_x2) &
  (precipitation < min_precipitation)\<close>.
\<close>

definition std_x2_of :: "cell list \<Rightarrow> cell list" where
  "std_x2_of sm = times2 (rolling_std 1 25 sm)"

definition rise_mask :: "cell list \<Rightarrow> cell list \<Rightarrow> cell list \<Rightarrow> cell list \<Rightarrow> real \<Rightarrow> bool list" where
  "rise_mask r1 r24 s p min_precipitation =
     mand (mand (map (\<lambda>x. cgt x (Some 0)) r1) (map2 cgt r24 s))
       (map (\<lambda>x. clt x (Some min_precipitation)) p)"

definition flag_d04 :: "dataframe \<Rightarrow> dataframe" where
  "flag_d04 df =
     (case precipitation df of
        None \<Rightarrow> df
      | Some p \<Rightarrow>
          let min_precipitation = 0.2;
              s = std_x2_of (soil_moisture df);
              r24 = diff 24 (soil_moisture df);
              r1 = diff 1 (soil_moisture df);
              index = mask_index (rise_mask r1 r24 s p min_precipitation)
          in df\<lparr>std_x2 := Some s, rise24h := Some r24, rise1h := Some r1,
                 qflag := add_flag 7 index (qflag df)\<rparr>)"

definition flag_d05 :: "dataframe \<Rightarrow> dataframe" where
  "flag_d05 df =
     (case gldas_precipitation df of
        None \<Rightarrow> df
      | Some gp \<Rightarrow>
          let min_precipitation = 0.2;
              s = std_x2_of (soil_moisture df);
              r24 = diff 24 (soil_moisture df);
              r1 = diff 1 (soil_moisture df);
              tot = rolling_sum 1 24 gp;
              index = mask_index (rise_mask r1 r24 s tot min_precipitation);
              df' = df\<lparr>gl_std_x2 := Some s, gl_rise24h := Some r24, gl_rise1h := Some r1,
                        gldas_precipitation_total := Some tot\<rparr>
          in if index \<noteq> [] then df'\<lparr>qflag := add_flag 8 index (qflag df)\<rparr> else df')"

section \<open>The derivatives\<close>

text \<open>
  \<open>savgol_filter(x, 3, 2, deriv, mode='nearest')\<close> fits a parabola through three
  consecutive samples: its first derivative at the centre is half the difference of the
  two neighbours, its second derivative is the second difference.  Beyond either end
  the nearest sample is repeated.  A NaN in the window makes the result NaN.
\<close>

definition nearest :: "cell list \<Rightarrow> int \<Rightarrow> cell" where
  "nearest xs i = xs ! nat (max 0 (min i (int (length xs) - 1)))"

definition savgol_d1 :: "cell list \<Rightarrow> cell list" where
  "savgol_d1 xs =
     map (\<lambda>t. case (nearest xs (int t - 1), nearest xs (int t), nearest xs (int t + 1)) of
                 (Some a, Some b, Some c) \<Rightarrow> Some ((c - a) / 2)
               | _ \<Rightarrow> None)
       [0..<length xs]"

definition savgol_d2 :: "cell list \<Rightarrow> cell list" where
  "savgol_d2 xs =
     map (\<lambda>t. case (nearest xs (int t - 1), nearest xs (int t), nearest xs (int t + 1)) of
                 (Some a, Some b, Some c) \<Rightarrow> Some (a - 2 * b + c)
               | _ \<Rightarrow> None)
       [0..<length xs]"

definition apply_savgol :: "dataframe \<Rightarrow> dataframe" where
  "apply_savgol df =
     df\<lparr>deriv1 := Some (savgol_d1 (soil_moisture df)),
        deriv2 := Some (savgol_d2 (soil_moisture df))\<rparr>"

section \<open>The spike detector\<close>

text \<open>
  \<open>rolling(window=w, min_periods=m, center=True).apply(f, raw=True)\<close>: row \<open>i\<close> gets
  \<open>f\<close> of the rows \<open>i + offset - w + 1 .. i + offset\<close> with \<open>offset = (w - 1) div 2\<close>, cut
  at both ends of the column, when at least \<open>m\<close> of them are present, and NaN
  otherwise.  An exception raised by \<open>f\<close> ends the whole computation.
\<close>

fun collect :: "('e + 'a) list \<Rightarrow> 'e + 'a list" where
  "collect [] = Inr []"
| "collect (Inl e # rs) = Inl e"
| "collect (Inr x # rs) = (case collect rs of Inl e \<Rightarrow> Inl e | Inr xs \<Rightarrow> Inr (x # xs))"

definition centred :: "nat \<Rightarrow> 'a list \<Rightarrow> nat \<Rightarrow> 'a list" where
  "centred w xs i =
     (let offset = (w - 1) div 2 in drop (i + offset + 1 - w) (take (i + offset + 1) xs))"

definition rolling_apply_center ::
  "nat \<Rightarrow> nat \<Rightarrow> (cell list \<Rightarrow> py_error + cell) \<Rightarrow> cell list \<Rightarrow> py_error + cell list" where
  "rolling_apply_center w m f xs =
     collect (map (\<lambda>i. let win = centred w xs i
                        in if m \<le> length (dropna win) then f win else Inr None)
                [0..<length xs])"

text \<open>
  \<open>rolling(window=weights, win_type='boxcar', center=True).mean()\<close>: the weights are the
  given array, the window is centred and padded with NaN beyond the ends, and
  \<open>min_periods\<close> defaults to the length of the window.  The result is the weighted sum
  of the samples present over the sum of their weights.
\<close>

definition window_pad :: "int \<Rightarrow> nat \<Rightarrow> cell list \<Rightarrow> cell list" where
  "window_pad lo w xs =
     map (\<lambda>k. let j = lo + int k
               in if 0 \<le> j \<and> j < int (length xs) then xs ! nat j else None)
       [0..<w]"

fun wpairs :: "real list \<Rightarrow> cell list \<Rightarrow> (real \<times> real) list" where
  "wpairs (a # as) (Some v # vs) = (a, v) # wpairs as vs"
| "wpairs (a # as) (None # vs) = wpairs as vs"
| "wpairs _ _ = []"

definition rolling_weighted_mean :: "real list \<Rightarrow> cell list \<Rightarrow> cell list" where
  "rolling_weighted_mean ws xs =
     map (\<lambda>i. let w = length ws; offset = (w - 1) div 2;
                   present = wpairs ws (window_pad (int i + int offset + 1 - int w) w xs);
                   tot_wgt = sum_list (map fst present)
               in if length present < w then None
                  else if tot_wgt = 0 then None
                  else Some (sum_list (map (\<lambda>(a, v). v * a) present) / tot_wgt))
       [0..<length xs]"

text \<open>The two functions local to \<open>flag_d06\<close>; an index out of range raises.\<close>

definition rolling_var :: "cell list \<Rightarrow> py_error + cell" where
  "rolling_var x =
     (if length x \<le> 12 then Inl IndexError
      else let x' = dropna (take 12 x @ drop 13 x)
           in Inr (if length x' = 1 then None
                   else Some (ssqdm x' / (real (length x') - 1))))"

definition peak :: "cell list \<Rightarrow> py_error + cell" where
  "peak x =
     (if length x < 3 then Inl IndexError
      else if (clt (x ! 0) (x ! 1) \<and> cgt (x ! 1) (x ! 2)) \<or>
              (cgt (x ! 0) (x ! 1) \<and> clt (x ! 1) (x ! 2)) then Inr (Some 1)
      else if 3 < length x then
        (if (clt (x ! 0) (x ! 1) \<and> ceq (x ! 1) (x ! 2) \<and> cgt (x ! 2) (x ! 3)) \<or>
            (cgt (x ! 0) (x ! 1) \<and> ceq (x ! 1) (x ! 2) \<and> clt (x ! 2) (x ! 3))
         then Inr (Some 2) else Inr (Some 0))
      else Inr (Some 0))"

definition cabs :: "cell \<Rightarrow> cell" where
  "cabs x = map_option abs x"

text \<open>
  A shifted boolean column holds NaN in the freed cell; \<open>> 0\<close> is true of \<open>True\<close> only.
\<close>

definition shifted_true :: "bool option \<Rightarrow> bool" where
  "shifted_true b = (b = Some True)"

text \<open>The columns \<open>flag_d06\<close> writes, each as the right-hand side of its assignment.\<close>

definition criteria1_of :: "cell list \<Rightarrow> fl list" where
  "criteria1_of sm = map fround3 (shift NaN 1 (map2 fdiv (shift None (- 1) sm) sm))"

definition criteria2_of :: "cell list \<Rightarrow> fl list" where
  "criteria2_of d2 = map fround3 (map fabs (shift NaN 1 (map2 fdiv d2 (shift None (- 2) d2))))"

definition criteria3_of :: "cell list \<Rightarrow> py_error + fl list" where
  "criteria3_of sm =
     (let window = (replicate 25 1)[12 := 0]
      in case rolling_apply_center 25 25 rolling_var sm of
           Inl e \<Rightarrow> Inl e
         | Inr var \<Rightarrow> Inr (map2 fdiv (map cabs var) (rolling_weighted_mean window sm)))"

definition criteria4_of :: "cell list \<Rightarrow> py_error + cell list" where
  "criteria4_of sm =
     (case rolling_apply_center 4 3 peak sm of
        Inl e \<Rightarrow> Inl e
      | Inr pk \<Rightarrow> Inr (shift None (- 1) pk))"

definition spike_2h_of :: "cell list \<Rightarrow> bool list" where
  "spike_2h_of c4 = map (\<lambda>x. cgt x (Some 1.1)) (shift None 1 c4)"

definition spike_mask :: "fl list \<Rightarrow> fl list \<Rightarrow> fl list \<Rightarrow> cell list \<Rightarrow> bool list \<Rightarrow> bool list" where
  "spike_mask c1 c2 c3 c4 s2h =
     mand (mand (mand
       (mor (mor (map (\<lambda>x. fgt x 1.15) c1) (map (\<lambda>x. flt x 0.85) c1)) s2h)
       (mand (map (\<lambda>x. fgt x 0.8) c2) (map (\<lambda>x. flt x 1.2) c2)))
       (map (\<lambda>x. flt x 1) c3))
       (map (\<lambda>x. cgt x (Some 0)) c4)"

definition spike_index :: "bool list \<Rightarrow> bool list \<Rightarrow> nat list" where
  "spike_index sp s2h =
     mask_index (mor sp (mand (map shifted_true (shift None 1 (map Some sp))) s2h))"

definition flag_d06 :: "dataframe \<Rightarrow> py_error + dataframe" where
  "flag_d06 df =
     (let c1 = criteria1_of (soil_moisture df)
      in case deriv2 df of
           None \<Rightarrow> Inl AttributeError
         | Some d2 \<Rightarrow>
            let c2 = criteria2_of d2
            in case criteria3_of (soil_moisture df) of
                 Inl e \<Rightarrow> Inl e
               | Inr c3 \<Rightarrow>
                  (case criteria4_of (soil_moisture df) of
                     Inl e \<Rightarrow> Inl e
                   | Inr c4 \<Rightarrow>
                      let s2h = spike_2h_of c4;
                          sp = spike_mask c1 c2 c3 c4 s2h;
                          index = spike_index sp s2h
                      in Inr (df\<lparr>criteria1 := Some c1, criteria2 := Some c2,
                                  criteria3 := Some c3, criteria4 := Some c4,
                                  spike_2h := Some s2h, spike := Some sp,
                                  qflag := add_flag 9 index (qflag df)\<rparr>)))"

section \<open>The pipeline\<close>

definition flagit :: "dataframe \<Rightarrow> py_error + dataframe" where
  "flagit df =
     flag_d06 (flag_d05 (flag_d04 (flag_d03 (flag_d02 (flag_d01
       (flag_c03 (flag_c02 (flag_c01 df)) None))))))"

section \<open>Detectors as values\<close>

text \<open>
  The nine detectors, so that statements can range over all of them and over the orders
  in which they run.  \<open>C03\<close> carries its threshold.
\<close>

datatype detector = C01 | C02 | C03 "real option" | D01 | D02 | D03 | D04 | D05 | D06

fun run :: "detector \<Rightarrow> dataframe \<Rightarrow> py_error + dataframe" where
  "run C01 df = Inr (flag_c01 df)"
| "run C02 df = Inr (flag_c02 df)"
| "run (C03 hwsd) df = Inr (flag_c03 df hwsd)"
| "run D01 df = Inr (flag_d01 df)"
| "run D02 df = Inr (flag_d02 df)"
| "run D03 df = Inr (flag_d03 df)"
| "run D04 df = Inr (flag_d04 df)"
| "run D05 df = Inr (flag_d05 df)"
| "run D06 df = flag_d06 df"

fun run_all :: "detector list \<Rightarrow> dataframe \<Rightarrow> py_error + dataframe" where
  "run_all [] df = Inr df"
| "run_all (d # ds) df = (case run d df of Inl e \<Rightarrow> Inl e | Inr df' \<Rightarrow> run_all ds df')"

definition pipeline :: "detector list" where
  "pipeline = [C01, C02, C03 None, D01, D02, D03, D04, D05, D06]"

text \<open>
  The table with the same inputs and empty flag sets, and what a detector adds to row
  \<open>t\<close> when it starts from there.
\<close>

definition blank :: "dataframe \<Rightarrow> dataframe" where
  "blank df =
     \<lparr>timestamps = [], soil_moisture = soil_moisture df,
      qflag = replicate (length (qflag df)) {},
      soil_temperature = soil_temperature df, air_temperature = air_temperature df,
      gldas_soil_temperature = gldas_soil_temperature df,
      precipitation = precipitation df, gldas_precipitation = gldas_precipitation df,
      deriv1 = None, deriv2 = deriv2 df, std_x2 = None, rise24h = None, rise1h = None,
      gl_std_x2 = None, gl_rise24h = None, gl_rise1h = None,
      gldas_precipitation_total = None, criteria1 = None, criteria2 = None,
      criteria3 = None, criteria4 = None, spike_2h = None, spike = None\<rparr>"

definition fired :: "detector \<Rightarrow> dataframe \<Rightarrow> nat \<Rightarrow> nat set" where
  "fired d df t = (case run d (blank df) of Inl e \<Rightarrow> {} | Inr df' \<Rightarrow> qflag df' ! t)"

text \<open>The cell of a column at a row, when the column is there.\<close>

definition cell_of :: "'a list option \<Rightarrow> nat \<Rightarrow> 'a option" where
  "cell_of c t = map_option (\<lambda>xs. xs ! t) c"

section \<open>Example tables\<close>

text \<open>A table with the required columns only: a soil-moisture series and empty flag sets.\<close>

definition table_of :: "cell list \<Rightarrow> dataframe" where
  "table_of sm =
     \<lparr>timestamps = map int [0..<length sm], soil_moisture = sm,
      qflag = replicate (length sm) {},
      soil_temperature = None, air_temperature = None, gldas_soil_temperature = None,
      precipitation = None, gldas_precipitation = None,
      deriv1 = None, deriv2 = None, std_x2 = None, rise24h = None, rise1h = None,
      gl_std_x2 = None, gl_rise24h = None, gl_rise1h = None,
      gldas_precipitation_total = None, criteria1 = None, criteria2 = None,
      criteria3 = None, criteria4 = None, spike_2h = None, spike = None\<rparr>"

text \<open>
  25 hours at 10 percent with a two-hour plateau of 20 percent at hours 12 and 13; the
  last twelve rows are the rows 13 to 24.
\<close>

definition plateau :: "cell list" where
  "plateau = replicate 12 (Some 10) @ [Some 20, Some 20] @ replicate 11 (Some 10)"

text \<open>24 hours at 10 percent, then a rise to 15 percent, and no rain in any hour.\<close>

definition dry_rise :: "dataframe" where
  "dry_rise =
     (table_of (replicate 24 (Some 10) @ [Some 15]))\<lparr>precipitation := Some (replicate 25 (Some 0))\<rparr>"

section \<open>Properties of the column operations\<close>

lemma length_shift [simp]: "length (shift f k xs) = length xs"
  by (auto simp: shift_def)

lemma nth_shift_down:
  "t < length xs \<Longrightarrow> shift f (int k) xs ! t = (if k \<le> t then xs ! (t - k) else f)"
  by (simp add: shift_def nth_append)

lemma nth_shift_up:
  assumes "t < length xs"
  shows "shift f (- int k) xs ! t = (if t + k < length xs then xs ! (t + k) else f)"
proof (cases "k = 0")
  case True
  with assms show ?thesis by (simp add: shift_def)
next
  case False
  then have "shift f (- int k) xs = drop k xs @ replicate (min k (length xs)) f"
    by (simp add: shift_def)
  moreover have "t - (length xs - k) < min k (length xs)" if "\<not> t < length xs - k"
    using that assms by arith
  ultimately show ?thesis
    using assms by (auto simp: nth_append add.commute)
qed

lemma length_diff [simp]: "length (diff k xs) = length xs"
  by (simp add: diff_def)

lemma nth_diff:
  "t < length xs \<Longrightarrow> diff k xs ! t = (if k \<le> t then csub (xs ! t) (xs ! (t - k)) else None)"
  by (simp add: diff_def nth_shift_down)

lemma set_mask_index [simp]: "set (mask_index bs) = {t. t < length bs \<and> bs ! t}"
  by (auto simp: mask_index_def)

lemma length_add_flag [simp]: "length (add_flag c idx q) = length q"
  by (induction idx arbitrary: q) (auto simp: add_flag_def)

lemma nth_add_flag:
  "t < length q \<Longrightarrow>
   add_flag c idx q ! t = (if t \<in> set idx then insert c (q ! t) else q ! t)"
proof (induction idx arbitrary: q)
  case Nil
  then show ?case by (simp add: add_flag_def)
next
  case (Cons i idx)
  let ?q = "q[i := insert c (q ! i)]"
  have step: "add_flag c (i # idx) q = add_flag c idx ?q"
    by (simp add: add_flag_def)
  have len: "t < length ?q"
    using Cons.prems by simp
  have "add_flag c idx ?q ! t = (if t \<in> set idx then insert c (?q ! t) else ?q ! t)"
    by (rule Cons.IH [OF len])
  moreover have "?q ! t = (if i = t then insert c (q ! t) else q ! t)"
    using Cons.prems by (simp add: nth_list_update)
  ultimately show ?case
    unfolding step by auto
qed

lemma add_flag_Nil [simp]: "add_flag c [] q = q"
  by (simp add: add_flag_def)

lemma length_mand [simp]: "length (mand xs ys) = min (length xs) (length ys)"
  by (simp add: mand_def)

lemma length_mor [simp]: "length (mor xs ys) = min (length xs) (length ys)"
  by (simp add: mor_def)

lemma nth_mand [simp]:
  "t < length xs \<Longrightarrow> t < length ys \<Longrightarrow> mand xs ys ! t = (xs ! t \<and> ys ! t)"
  by (simp add: mand_def)

lemma nth_mor [simp]:
  "t < length xs \<Longrightarrow> t < length ys \<Longrightarrow> mor xs ys ! t = (xs ! t \<or> ys ! t)"
  by (simp add: mor_def)

lemma length_rolling_std [simp]: "length (rolling_std m w xs) = length xs"
  by (simp add: rolling_std_def)

lemma length_rolling_sum [simp]: "length (rolling_sum m w xs) = length xs"
  by (simp add: rolling_sum_def)

lemma length_times2 [simp]: "length (times2 xs) = length xs"
  by (simp add: times2_def)

lemma length_trailing:
  "t < length xs \<Longrightarrow> length (trailing w xs t) = Suc t - (Suc t - w)"
  by (auto simp: trailing_def min_def)

lemma trailing_nth:
  assumes "t < length xs"
  shows "trailing w xs t = map ((!) xs) [Suc t - w..<Suc t]"
proof (rule nth_equalityI)
  show "length (trailing w xs t) = length (map ((!) xs) [Suc t - w..<Suc t])"
    using assms by (simp add: length_trailing del: upt_Suc)
  fix i
  assume "i < length (trailing w xs t)"
  then have i: "i < Suc t - (Suc t - w)"
    using assms by (simp add: length_trailing)
  then have "Suc t - w + i < Suc t"
    by arith
  then show "trailing w xs t ! i = map ((!) xs) [Suc t - w..<Suc t] ! i"
    using assms i by (simp add: trailing_def del: upt_Suc)
qed

lemma length_dropna: "length (dropna xs) \<le> length xs"
  by (induction xs rule: dropna.induct) auto

lemma mask_index_Nil:
  "mask_index bs = [] \<longleftrightarrow> (\<forall>t<length bs. \<not> bs ! t)"
  by (auto simp: mask_index_def filter_empty_conv)

section \<open>The saturation-point rule and a zero threshold\<close>

lemma qflag_flag_c03:
  "length (qflag df) = length (soil_moisture df) \<Longrightarrow> t < length (soil_moisture df) \<Longrightarrow>
   \<not> falsy hwsd \<Longrightarrow>
   qflag (flag_c03 df hwsd) ! t =
     (if cgt (soil_moisture df ! t) hwsd then insert 3 (qflag df ! t) else qflag df ! t)"
  by (auto simp: flag_c03_def Let_def nth_add_flag mask_index_Nil)

text \<open>
  C10.  \<open>flag_c03\<close> treats a threshold of zero like an absent one: with \<open>hwsd = 0\<close>, as
  with \<open>hwsd = None\<close>, it returns the table as it is, so no row gets flag 3, whatever
  its soil moisture.  A threshold that is neither activates the rule: flag 3 is added
  to exactly the rows whose soil moisture exceeds it.
\<close>

theorem flag_c03_zero_threshold:
  "flag_c03 df (Some 0) = df \<and> flag_c03 df None = df \<and>
   (h \<noteq> 0 \<longrightarrow> length (qflag df) = length (soil_moisture df) \<longrightarrow>
    t < length (soil_moisture df) \<longrightarrow>
    qflag (flag_c03 df (Some h)) ! t =
      (if cgt (soil_moisture df ! t) (Some h) then insert 3 (qflag df ! t) else qflag df ! t))"
  using qflag_flag_c03 [of df t "Some h"]
  by (simp add: flag_c03_def falsy_def)

theorem flag_c03_zero_threshold_witness:
  "cgt (soil_moisture (table_of [Some 5, Some 2]) ! 0) (Some 0) \<and>
   qflag (flag_c03 (table_of [Some 5, Some 2]) (Some 0)) = [{}, {}] \<and>
   qflag (flag_c03 (table_of [Some 5, Some 2]) None) = [{}, {}] \<and>
   qflag (flag_c03 (table_of [Some 5, Some 2]) (Some 3)) ! 0 = {3} \<and>
   qflag (flag_c03 (table_of [Some 5, Some 2]) (Some 3)) ! 1 = {}"
  using flag_c03_zero_threshold [of "table_of [Some 5, Some 2]" 3 0]
    flag_c03_zero_threshold [of "table_of [Some 5, Some 2]" 3 1]
  by (simp add: table_of_def)

section \<open>The spike detector: its columns row by row\<close>

lemma nth_shift_1:
  "t < length xs \<Longrightarrow> shift f 1 xs ! t = (if 1 \<le> t then xs ! (t - 1) else f)"
  using nth_shift_down [of t xs f 1] by simp

lemma nth_shift_m1:
  "t < length xs \<Longrightarrow> shift f (- 1) xs ! t = (if t + 1 < length xs then xs ! (t + 1) else f)"
  using nth_shift_up [of t xs f 1] by simp


lemma collect_map_Inr:
  "(\<And>x. x \<in> set xs \<Longrightarrow> f x = Inr (g x)) \<Longrightarrow> collect (map f xs) = Inr (map g xs)"
  by (induction xs) auto

lemma rolling_apply_center_total:
  assumes "\<And>win. m \<le> length (dropna win) \<Longrightarrow> \<exists>y. f win = Inr y"
  shows "rolling_apply_center w m f xs =
    Inr (map (\<lambda>i. if m \<le> length (dropna (centred w xs i))
                    then projr (f (centred w xs i)) else None) [0..<length xs])"
  unfolding rolling_apply_center_def Let_def
proof (rule collect_map_Inr)
  fix i
  show "(if m \<le> length (dropna (centred w xs i)) then f (centred w xs i) else Inr None) =
        Inr (if m \<le> length (dropna (centred w xs i)) then projr (f (centred w xs i)) else None)"
    using assms [of "centred w xs i"] by auto
qed

lemma rolling_var_total: "25 \<le> length (dropna win) \<Longrightarrow> \<exists>y. rolling_var win = Inr y"
  using length_dropna [of win] by (auto simp: rolling_var_def Let_def)

lemma peak_total: "3 \<le> length (dropna win) \<Longrightarrow> \<exists>y. peak win = Inr y"
  using length_dropna [of win] by (auto simp: peak_def)

lemma peak_range: "peak win = Inr y \<Longrightarrow> y = Some 0 \<or> y = Some 1 \<or> y = Some 2"
  by (auto simp: peak_def split: if_splits)

lemma centred_25_edge:
  "i < 12 \<or> length xs \<le> i + 12 \<Longrightarrow> length (centred 25 xs i) < 25"
  by (auto simp: centred_def)

lemma length_rolling_weighted_mean [simp]:
  "length (rolling_weighted_mean ws xs) = length xs"
  by (simp add: rolling_weighted_mean_def)

lemma rolling_var_column:
  "\<exists>var. rolling_apply_center 25 25 rolling_var sm = Inr var \<and> length var = length sm \<and>
     (\<forall>i<length sm. i < 12 \<or> length sm \<le> i + 12 \<longrightarrow> var ! i = None)"
proof -
  let ?g = "\<lambda>i. if 25 \<le> length (dropna (centred 25 sm i))
                then projr (rolling_var (centred 25 sm i)) else None"
  have var: "rolling_apply_center 25 25 rolling_var sm = Inr (map ?g [0..<length sm])"
    by (rule rolling_apply_center_total) (rule rolling_var_total)
  have short: "\<not> 25 \<le> length (dropna (centred 25 sm i))" if "i < 12 \<or> length sm \<le> i + 12" for i
    using centred_25_edge [OF that] length_dropna [of "centred 25 sm i"] by simp
  have "\<forall>i<length sm. i < 12 \<or> length sm \<le> i + 12 \<longrightarrow> map ?g [0..<length sm] ! i = None"
    using short by auto
  with var show ?thesis
    by (intro exI [of _ "map ?g [0..<length sm]"]) simp
qed

lemma criteria3_of_total:
  "\<exists>c3. criteria3_of sm = Inr c3 \<and> length c3 = length sm \<and>
     (\<forall>i<length sm. i < 12 \<or> length sm \<le> i + 12 \<longrightarrow> c3 ! i = NaN)"
proof -
  obtain var where var: "rolling_apply_center 25 25 rolling_var sm = Inr var"
    and len: "length var = length sm"
    and edge: "\<forall>i<length sm. i < 12 \<or> length sm \<le> i + 12 \<longrightarrow> var ! i = None"
    using rolling_var_column by blast
  show ?thesis
    using len edge by (simp add: criteria3_of_def var cabs_def)
qed

lemma criteria4_of_total:
  "\<exists>c4. criteria4_of sm = Inr c4 \<and> length c4 = length sm \<and>
     (\<forall>i<length sm. c4 ! i = None \<or> c4 ! i = Some 0 \<or> c4 ! i = Some 1 \<or> c4 ! i = Some 2)"
proof -
  let ?pk = "map (\<lambda>i. if 3 \<le> length (dropna (centred 4 sm i))
                    then projr (peak (centred 4 sm i)) else None) [0..<length sm]"
  have pk: "rolling_apply_center 4 3 peak sm = Inr ?pk"
    by (rule rolling_apply_center_total) (rule peak_total)
  have rng: "?pk ! i = None \<or> ?pk ! i = Some 0 \<or> ?pk ! i = Some 1 \<or> ?pk ! i = Some 2"
    if "i < length sm" for i
  proof (cases "3 \<le> length (dropna (centred 4 sm i))")
    case True
    then obtain y where y: "peak (centred 4 sm i) = Inr y"
      using peak_total by blast
    with True that peak_range [OF y] show ?thesis by simp
  next
    case False
    with that show ?thesis by simp
  qed
  have "shift None (- 1) ?pk ! i = None \<or> shift None (- 1) ?pk ! i = Some 0 \<or>
        shift None (- 1) ?pk ! i = Some 1 \<or> shift None (- 1) ?pk ! i = Some 2"
    if "i < length sm" for i
    using that rng [of "i + 1"] by (simp add: nth_shift_m1 del: nth_map)
  then show ?thesis
    by (simp add: criteria4_of_def pk)
qed


lemma length_criteria1 [simp]: "length (criteria1_of sm) = length sm"
  by (simp add: criteria1_of_def)

lemma length_criteria2 [simp]: "length (criteria2_of d2) = length d2"
  by (simp add: criteria2_of_def)


lemma length_spike_2h [simp]: "length (spike_2h_of c4) = length c4"
  by (simp add: spike_2h_of_def)

lemma nth_spike_2h:
  "t < length c4 \<Longrightarrow> spike_2h_of c4 ! t = (1 \<le> t \<and> cgt (c4 ! (t - 1)) (Some 1.1))"
  by (simp add: spike_2h_of_def nth_shift_1)

lemma length_spike_mask:
  "length c1 = n \<Longrightarrow> length c2 = n \<Longrightarrow> length c3 = n \<Longrightarrow> length c4 = n \<Longrightarrow> length s2h = n \<Longrightarrow>
   length (spike_mask c1 c2 c3 c4 s2h) = n"
  by (simp add: spike_mask_def)

lemma nth_spike_mask:
  "length c1 = n \<Longrightarrow> length c2 = n \<Longrightarrow> length c3 = n \<Longrightarrow> length c4 = n \<Longrightarrow> length s2h = n \<Longrightarrow>
   t < n \<Longrightarrow>
   spike_mask c1 c2 c3 c4 s2h ! t =
     (((fgt (c1 ! t) 1.15 \<or> flt (c1 ! t) 0.85) \<or> s2h ! t) \<and>
      (fgt (c2 ! t) 0.8 \<and> flt (c2 ! t) 1.2) \<and> flt (c3 ! t) 1 \<and> cgt (c4 ! t) (Some 0))"
  by (simp add: spike_mask_def)

lemma set_spike_index:
  "length sp = n \<Longrightarrow> length s2h = n \<Longrightarrow>
   set (spike_index sp s2h) = {t. t < n \<and> (sp ! t \<or> (1 \<le> t \<and> sp ! (t - 1)) \<and> s2h ! t)}"
  by (auto simp: spike_index_def nth_shift_1 shifted_true_def split: if_splits)

lemma flag_d06_Inr:
  assumes "deriv2 df = Some d2"
  shows "\<exists>c3 c4. criteria3_of (soil_moisture df) = Inr c3 \<and> criteria4_of (soil_moisture df) = Inr c4 \<and>
     flag_d06 df =
       Inr (df\<lparr>criteria1 := Some (criteria1_of (soil_moisture df)),
               criteria2 := Some (criteria2_of d2), criteria3 := Some c3, criteria4 := Some c4,
               spike_2h := Some (spike_2h_of c4),
               spike := Some (spike_mask (criteria1_of (soil_moisture df)) (criteria2_of d2) c3 c4
                        (spike_2h_of c4)),
               qflag := add_flag 9
                  (spike_index (spike_mask (criteria1_of (soil_moisture df)) (criteria2_of d2) c3 c4
                        (spike_2h_of c4)) (spike_2h_of c4)) (qflag df)\<rparr>)"
proof -
  obtain c3 where c3: "criteria3_of (soil_moisture df) = Inr c3"
    using criteria3_of_total by blast
  obtain c4 where c4: "criteria4_of (soil_moisture df) = Inr c4"
    using criteria4_of_total by blast
  show ?thesis
    by (simp add: flag_d06_def assms c3 c4 Let_def)
qed

lemma wf_table_lengths:
  "wf_table df \<Longrightarrow> length (qflag df) = nrows df"
  "wf_table df \<Longrightarrow> deriv2 df = Some d2 \<Longrightarrow> length d2 = nrows df"
  "wf_table df \<Longrightarrow> precipitation df = Some p \<Longrightarrow> length p = nrows df"
  "wf_table df \<Longrightarrow> gldas_precipitation df = Some gp \<Longrightarrow> length gp = nrows df"
  by (simp_all add: wf_table_def col_ok_def)

lemma flag_d06_rows:
  assumes d2: "deriv2 df = Some d2" and wf: "wf_table df"
  shows "\<exists>df' c1 c2 c3 c4 s2h sp.
     flag_d06 df = Inr df' \<and> criteria1 df' = Some c1 \<and> criteria2 df' = Some c2 \<and>
     criteria3 df' = Some c3 \<and> criteria4 df' = Some c4 \<and>
     spike_2h df' = Some s2h \<and> spike df' = Some sp \<and>
     c1 = criteria1_of (soil_moisture df) \<and> c2 = criteria2_of d2 \<and>
     (\<forall>t<nrows df.
        (t < 12 \<or> nrows df \<le> t + 12 \<longrightarrow> c3 ! t = NaN) \<and>
        (c4 ! t = None \<or> c4 ! t = Some 0 \<or> c4 ! t = Some 1 \<or> c4 ! t = Some 2) \<and>
        (s2h ! t \<longleftrightarrow> 1 \<le> t \<and> cgt (c4 ! (t - 1)) (Some 1.1)) \<and>
        (sp ! t \<longleftrightarrow>
           ((fgt (c1 ! t) 1.15 \<or> flt (c1 ! t) 0.85) \<or> s2h ! t) \<and>
           (fgt (c2 ! t) 0.8 \<and> flt (c2 ! t) 1.2) \<and> flt (c3 ! t) 1 \<and> cgt (c4 ! t) (Some 0)) \<and>
        qflag df' ! t =
          (if sp ! t \<or> (1 \<le> t \<and> sp ! (t - 1) \<and> s2h ! t)
           then insert 9 (qflag df ! t) else qflag df ! t))"
proof -
  let ?sm = "soil_moisture df"
  let ?n = "nrows df"
  obtain c3 where c3: "criteria3_of ?sm = Inr c3" and len3: "length c3 = ?n"
    and edge: "\<forall>i<?n. i < 12 \<or> ?n \<le> i + 12 \<longrightarrow> c3 ! i = NaN"
    using criteria3_of_total [of ?sm] by (auto simp: nrows_def)
  obtain c4 where c4: "criteria4_of ?sm = Inr c4" and len4: "length c4 = ?n"
    and rng: "\<forall>i<?n. c4 ! i = None \<or> c4 ! i = Some 0 \<or> c4 ! i = Some 1 \<or> c4 ! i = Some 2"
    using criteria4_of_total [of ?sm] by (auto simp: nrows_def)
  let ?c1 = "criteria1_of ?sm"
  let ?c2 = "criteria2_of d2"
  let ?s2h = "spike_2h_of c4"
  let ?sp = "spike_mask ?c1 ?c2 c3 c4 ?s2h"
  let ?df' = "df\<lparr>criteria1 := Some ?c1, criteria2 := Some ?c2, criteria3 := Some c3,
               criteria4 := Some c4, spike_2h := Some ?s2h, spike := Some ?sp,
               qflag := add_flag 9 (spike_index ?sp ?s2h) (qflag df)\<rparr>"
  have res: "flag_d06 df = Inr ?df'"
    by (simp add: flag_d06_def d2 c3 c4 Let_def)
  have len1: "length ?c1 = ?n" by (simp add: nrows_def)
  have len2: "length ?c2 = ?n" using wf_table_lengths(2) [OF wf d2] by simp
  have lens: "length ?s2h = ?n" using len4 by simp
  have lenp: "length ?sp = ?n"
    by (rule length_spike_mask [OF len1 len2 len3 len4 lens])
  have lenq: "length (qflag df) = ?n" by (rule wf_table_lengths(1) [OF wf])
  have rows: "(t < 12 \<or> ?n \<le> t + 12 \<longrightarrow> c3 ! t = NaN) \<and>
        (c4 ! t = None \<or> c4 ! t = Some 0 \<or> c4 ! t = Some 1 \<or> c4 ! t = Some 2) \<and>
        (?s2h ! t \<longleftrightarrow> 1 \<le> t \<and> cgt (c4 ! (t - 1)) (Some 1.1)) \<and>
        (?sp ! t \<longleftrightarrow>
           ((fgt (?c1 ! t) 1.15 \<or> flt (?c1 ! t) 0.85) \<or> ?s2h ! t) \<and>
           (fgt (?c2 ! t) 0.8 \<and> flt (?c2 ! t) 1.2) \<and> flt (c3 ! t) 1 \<and> cgt (c4 ! t) (Some 0)) \<and>
        qflag ?df' ! t =
          (if ?sp ! t \<or> (1 \<le> t \<and> ?sp ! (t - 1) \<and> ?s2h ! t)
           then insert 9 (qflag df ! t) else qflag df ! t)" if t: "t < ?n" for t
  proof -
    have a: "t < 12 \<or> ?n \<le> t + 12 \<longrightarrow> c3 ! t = NaN" using edge t by blast
    have b: "c4 ! t = None \<or> c4 ! t = Some 0 \<or> c4 ! t = Some 1 \<or> c4 ! t = Some 2"
      using rng t by blast
    have c: "?s2h ! t \<longleftrightarrow> 1 \<le> t \<and> cgt (c4 ! (t - 1)) (Some 1.1)"
      using t len4 by (simp add: nth_spike_2h)
    have d: "?sp ! t \<longleftrightarrow>
           ((fgt (?c1 ! t) 1.15 \<or> flt (?c1 ! t) 0.85) \<or> ?s2h ! t) \<and>
           (fgt (?c2 ! t) 0.8 \<and> flt (?c2 ! t) 1.2) \<and> flt (c3 ! t) 1 \<and> cgt (c4 ! t) (Some 0)"
      by (rule nth_spike_mask [OF len1 len2 len3 len4 lens t])
    have e: "qflag ?df' ! t =
          (if ?sp ! t \<or> (1 \<le> t \<and> ?sp ! (t - 1) \<and> ?s2h ! t)
           then insert 9 (qflag df ! t) else qflag df ! t)"
      using t lenq by (auto simp: nth_add_flag set_spike_index [OF lenp lens])
    show ?thesis using a b c d e by blast
  qed
  show ?thesis
    apply (rule exI [of _ ?df'], rule exI [of _ ?c1], rule exI [of _ ?c2], rule exI [of _ c3],
        rule exI [of _ c4], rule exI [of _ ?s2h], rule exI [of _ ?sp])
    using res rows by simp
qed

section \<open>The spike rule\<close>



lemma flag_d06_AttributeError: "deriv2 df = None \<Longrightarrow> flag_d06 df = Inl AttributeError"
  by (simp add: flag_d06_def Let_def)

lemma plateau_table:
  "wf_table (apply_savgol (table_of plateau))"
  "nrows (apply_savgol (table_of plateau)) = 25"
  "deriv2 (apply_savgol (table_of plateau)) = Some (savgol_d2 plateau)"
  "qflag (apply_savgol (table_of plateau)) = replicate 25 {}"
  by (simp_all add: wf_table_def col_ok_def nrows_def apply_savgol_def table_of_def plateau_def
      savgol_d1_def savgol_d2_def)

lemma plateau_columns:
  "map_sum id (\<lambda>d. (spike d, spike_2h d)) (flag_d06 (apply_savgol (table_of plateau))) =
   Inr (Some [False, False, False, False, False, False, False, False, False, False, False, False,
              True, False, False, False, False, False, False, False, False, False, False, False,
              False],
        Some [False, False, False, False, False, False, False, False, False, False, False, False,
              False, True, False, False, False, False, False, False, False, False, False, False,
              False])"
  by code_simp

text \<open>
  C2.  On a table whose derivatives have been computed, the spike detector adds flag 9
  to row \<open>t\<close> if and only if \<open>spike[t]\<close> holds, or \<open>spike[t-1]\<close> and \<open>spike_2h[t]\<close> both
  hold, where \<open>spike[t]\<close> is \<open>((criteria1[t] > 1.15 or criteria1[t] < 0.85) or spike_2h[t])
  and 0.8 < criteria2[t] < 1.2 and criteria3[t] < 1 and criteria4[t] > 0\<close>, and
  \<open>spike_2h[t]\<close> holds exactly when \<open>criteria4\<close> one row earlier exceeds 1.1, that is,
  equals 2.  The columns are the ones the detector writes to the table.
\<close>

theorem flag_d06_spike_rule:
  assumes "deriv2 df = Some d2" and "wf_table df"
  shows "\<exists>df' c1 c2 c3 c4 s2h sp.
     flag_d06 df = Inr df' \<and> criteria1 df' = Some c1 \<and> criteria2 df' = Some c2 \<and>
     criteria3 df' = Some c3 \<and> criteria4 df' = Some c4 \<and>
     spike_2h df' = Some s2h \<and> spike df' = Some sp \<and>
     (\<forall>t<nrows df.
        (s2h ! t \<longleftrightarrow> 1 \<le> t \<and> cgt (c4 ! (t - 1)) (Some 1.1)) \<and>
        (s2h ! t \<longleftrightarrow> 1 \<le> t \<and> c4 ! (t - 1) = Some 2) \<and>
        (sp ! t \<longleftrightarrow>
           ((fgt (c1 ! t) 1.15 \<or> flt (c1 ! t) 0.85) \<or> s2h ! t) \<and>
           (fgt (c2 ! t) 0.8 \<and> flt (c2 ! t) 1.2) \<and> flt (c3 ! t) 1 \<and> cgt (c4 ! t) (Some 0)) \<and>
        qflag df' ! t =
          (if sp ! t \<or> (1 \<le> t \<and> sp ! (t - 1) \<and> s2h ! t)
           then insert 9 (qflag df ! t) else qflag df ! t))"
proof -
  obtain df' c1 c2 c3 c4 s2h sp where res: "flag_d06 df = Inr df'"
    and cols: "criteria1 df' = Some c1" "criteria2 df' = Some c2" "criteria3 df' = Some c3"
      "criteria4 df' = Some c4" "spike_2h df' = Some s2h" "spike df' = Some sp"
    and rows: "\<forall>t<nrows df.
        (t < 12 \<or> nrows df \<le> t + 12 \<longrightarrow> c3 ! t = NaN) \<and>
        (c4 ! t = None \<or> c4 ! t = Some 0 \<or> c4 ! t = Some 1 \<or> c4 ! t = Some 2) \<and>
        (s2h ! t \<longleftrightarrow> 1 \<le> t \<and> cgt (c4 ! (t - 1)) (Some 1.1)) \<and>
        (sp ! t \<longleftrightarrow>
           ((fgt (c1 ! t) 1.15 \<or> flt (c1 ! t) 0.85) \<or> s2h ! t) \<and>
           (fgt (c2 ! t) 0.8 \<and> flt (c2 ! t) 1.2) \<and> flt (c3 ! t) 1 \<and> cgt (c4 ! t) (Some 0)) \<and>
        qflag df' ! t =
          (if sp ! t \<or> (1 \<le> t \<and> sp ! (t - 1) \<and> s2h ! t)
           then insert 9 (qflag df ! t) else qflag df ! t)"
    using flag_d06_rows [OF assms] by blast
  have two: "(1 \<le> t \<and> cgt (c4 ! (t - 1)) (Some 1.1)) \<longleftrightarrow> (1 \<le> t \<and> c4 ! (t - 1) = Some 2)"
    if "t < nrows df" for t
  proof (cases "1 \<le> t")
    case True
    with that have "t - 1 < nrows df" by simp
    with rows have "c4 ! (t - 1) = None \<or> c4 ! (t - 1) = Some 0 \<or> c4 ! (t - 1) = Some 1 \<or>
        c4 ! (t - 1) = Some 2"
      by blast
    then show ?thesis by auto
  next
    case False
    then show ?thesis by simp
  qed
  show ?thesis
    apply (rule exI [of _ df'], rule exI [of _ c1], rule exI [of _ c2], rule exI [of _ c3],
        rule exI [of _ c4], rule exI [of _ s2h], rule exI [of _ sp])
    using res cols rows two by simp
qed

theorem flag_d06_spike_rule_witness:
  "deriv2 (apply_savgol (table_of plateau)) = Some (savgol_d2 plateau) \<and>
   wf_table (apply_savgol (table_of plateau)) \<and>
   (\<exists>df' sp s2h. flag_d06 (apply_savgol (table_of plateau)) = Inr df' \<and>
      spike df' = Some sp \<and> spike_2h df' = Some s2h \<and>
      sp ! 12 \<and> \<not> sp ! 13 \<and> s2h ! 13 \<and>
      qflag df' ! 11 = {} \<and> qflag df' ! 12 = {9} \<and> qflag df' ! 13 = {9} \<and> qflag df' ! 14 = {})"
proof -
  let ?T = "apply_savgol (table_of plateau)"
  obtain df' c1 c2 c3 c4 s2h sp where res: "flag_d06 ?T = Inr df'"
    and cols: "spike_2h df' = Some s2h" "spike df' = Some sp"
    and rows: "\<forall>t<nrows ?T. qflag df' ! t =
          (if sp ! t \<or> (1 \<le> t \<and> sp ! (t - 1) \<and> s2h ! t)
           then insert 9 (qflag ?T ! t) else qflag ?T ! t)"
    using flag_d06_spike_rule [OF plateau_table(3) plateau_table(1)] by blast
  have sp: "sp = [False, False, False, False, False, False, False, False, False, False, False,
      False, True, False, False, False, False, False, False, False, False, False, False, False,
      False]"
    and s2h: "s2h = [False, False, False, False, False, False, False, False, False, False, False,
      False, False, True, False, False, False, False, False, False, False, False, False, False,
      False]"
    using plateau_columns cols by (simp_all add: res)
  have q: "qflag df' ! 11 = {}" "qflag df' ! 12 = {9}" "qflag df' ! 13 = {9}" "qflag df' ! 14 = {}"
    using rows by (simp_all add: plateau_table sp s2h)
  show ?thesis
    using res cols q plateau_table by (simp add: sp s2h)
qed

section \<open>The spike detector at the ends of the series\<close>

text \<open>
  C6, as stated, fails: the claim is that flag 9 is never added at any of the first 12
  or last 12 rows.  On the 25-row plateau series the detector adds flag 9 to row 13,
  the first of the last twelve rows: \<open>spike\<close> holds at row 12, which has a full window,
  and \<open>spike_2h\<close> holds at row 13.
\<close>

theorem flag_d06_edges_counterexample:
  "nrows (apply_savgol (table_of plateau)) = 25 \<and>
   nrows (apply_savgol (table_of plateau)) \<le> 13 + 12 \<and>
   qflag (apply_savgol (table_of plateau)) ! 13 = {} \<and>
   map_sum id (\<lambda>d. qflag d ! 13) (flag_d06 (apply_savgol (table_of plateau))) = Inr {9}"
proof -
  have "map_sum id (\<lambda>d. qflag d ! 13) (flag_d06 (apply_savgol (table_of plateau))) = Inr {9}"
    by code_simp
  then show ?thesis
    by (simp add: plateau_table)
qed

text \<open>
  C6, amended.  On a table whose derivatives have been computed, \<open>spike[t]\<close> is false at
  each of the first 12 and each of the last 12 rows (\<open>criteria3\<close> is NaN there), and
  flag 9 is never added at any of the first 12 or the last 11 rows.  The twelfth row from
  the end can be flagged, by the two-hour disjunct \<open>spike[t-1] and spike_2h[t]\<close> only.
\<close>

theorem flag_d06_edges:
  assumes "deriv2 df = Some d2" and "wf_table df"
  shows "\<exists>df' sp. flag_d06 df = Inr df' \<and> spike df' = Some sp \<and>
     (\<forall>t<nrows df.
        (t < 12 \<or> nrows df \<le> t + 12 \<longrightarrow> \<not> sp ! t) \<and>
        (t < 12 \<or> nrows df \<le> t + 11 \<longrightarrow> qflag df' ! t = qflag df ! t))"
proof -
  obtain df' c1 c2 c3 c4 s2h sp where res: "flag_d06 df = Inr df'"
    and cols: "spike df' = Some sp"
    and rows: "\<forall>t<nrows df.
        (t < 12 \<or> nrows df \<le> t + 12 \<longrightarrow> c3 ! t = NaN) \<and>
        (c4 ! t = None \<or> c4 ! t = Some 0 \<or> c4 ! t = Some 1 \<or> c4 ! t = Some 2) \<and>
        (s2h ! t \<longleftrightarrow> 1 \<le> t \<and> cgt (c4 ! (t - 1)) (Some 1.1)) \<and>
        (sp ! t \<longleftrightarrow>
           ((fgt (c1 ! t) 1.15 \<or> flt (c1 ! t) 0.85) \<or> s2h ! t) \<and>
           (fgt (c2 ! t) 0.8 \<and> flt (c2 ! t) 1.2) \<and> flt (c3 ! t) 1 \<and> cgt (c4 ! t) (Some 0)) \<and>
        qflag df' ! t =
          (if sp ! t \<or> (1 \<le> t \<and> sp ! (t - 1) \<and> s2h ! t)
           then insert 9 (qflag df ! t) else qflag df ! t)"
    using flag_d06_rows [OF assms] by blast
  have quiet: "\<not> sp ! t" if "t < nrows df" "t < 12 \<or> nrows df \<le> t + 12" for t
  proof -
    have "c3 ! t = NaN" using rows that by blast
    moreover have "sp ! t \<longrightarrow> flt (c3 ! t) 1" using rows that(1) by blast
    ultimately show ?thesis by auto
  qed
  have keep: "qflag df' ! t = qflag df ! t" if t: "t < nrows df" and e: "t < 12 \<or> nrows df \<le> t + 11" for t
  proof -
    have a: "\<not> sp ! t" using quiet [OF t] e by auto
    have b: "\<not> (1 \<le> t \<and> sp ! (t - 1))"
    proof
      assume h: "1 \<le> t \<and> sp ! (t - 1)"
      then have "t - 1 < nrows df" "t - 1 < 12 \<or> nrows df \<le> t - 1 + 12"
        using t e by auto
      then have "\<not> sp ! (t - 1)" by (rule quiet)
      with h show False by simp
    qed
    from rows t have "qflag df' ! t =
          (if sp ! t \<or> (1 \<le> t \<and> sp ! (t - 1) \<and> s2h ! t)
           then insert 9 (qflag df ! t) else qflag df ! t)" by blast
    with a b show ?thesis by auto
  qed
  show ?thesis
    using res cols quiet keep by blast
qed

theorem flag_d06_edges_witness:
  "deriv2 (apply_savgol (table_of plateau)) = Some (savgol_d2 plateau) \<and>
   wf_table (apply_savgol (table_of plateau)) \<and>
   (\<exists>df'. flag_d06 (apply_savgol (table_of plateau)) = Inr df' \<and>
      qflag df' ! 3 = {} \<and> qflag df' ! 14 = {} \<and> qflag df' ! 24 = {})"
proof -
  let ?T = "apply_savgol (table_of plateau)"
  obtain df' sp where res: "flag_d06 ?T = Inr df'"
    and rows: "\<forall>t<nrows ?T. t < 12 \<or> nrows ?T \<le> t + 11 \<longrightarrow> qflag df' ! t = qflag ?T ! t"
    using flag_d06_edges [OF plateau_table(3) plateau_table(1)] by blast
  have "qflag df' ! 3 = {}" "qflag df' ! 14 = {}" "qflag df' ! 24 = {}"
    using rows by (simp_all add: plateau_table)
  then show ?thesis
    using res plateau_table by simp
qed

section \<open>The two ratio criteria\<close>







section \<open>What a detector changes\<close>

lemma qflag_flag_c01:
  "qflag (flag_c01 df) =
     add_flag 1 (mask_index (map (\<lambda>x. clt x (Some 0)) (soil_moisture df))) (qflag df)"
  by (simp add: flag_c01_def Let_def)

lemma qflag_flag_c02:
  "qflag (flag_c02 df) =
     add_flag 2 (mask_index (map (\<lambda>x. cgt x (Some 60)) (soil_moisture df))) (qflag df)"
  by (simp add: flag_c02_def Let_def)

lemma qflag_flag_c03':
  "qflag (flag_c03 df hwsd) =
     add_flag 3 (if falsy hwsd then [] else mask_index (map (\<lambda>x. cgt x hwsd) (soil_moisture df)))
       (qflag df)"
  by (simp add: flag_c03_def Let_def)

lemma qflag_flag_d01:
  "qflag (flag_d01 df) =
     add_flag 4 (case soil_temperature df of None \<Rightarrow> []
                 | Some st \<Rightarrow> mask_index (map (\<lambda>x. clt x (Some 0)) st)) (qflag df)"
  by (simp add: flag_d01_def Let_def split: option.splits)

lemma qflag_flag_d02:
  "qflag (flag_d02 df) =
     add_flag 5 (case air_temperature df of None \<Rightarrow> []
                 | Some st \<Rightarrow> mask_index (map (\<lambda>x. clt x (Some 0)) st)) (qflag df)"
  by (simp add: flag_d02_def Let_def split: option.splits)

lemma qflag_flag_d03:
  "qflag (flag_d03 df) =
     add_flag 6 (case gldas_soil_temperature df of None \<Rightarrow> []
                 | Some st \<Rightarrow> mask_index (map (\<lambda>x. clt x (Some 0)) st)) (qflag df)"
  by (simp add: flag_d03_def Let_def split: option.splits)

lemma qflag_flag_d04:
  "qflag (flag_d04 df) =
     add_flag 7 (case precipitation df of None \<Rightarrow> []
                 | Some p \<Rightarrow> mask_index (rise_mask (diff 1 (soil_moisture df))
                     (diff 24 (soil_moisture df)) (std_x2_of (soil_moisture df)) p 0.2)) (qflag df)"
  by (simp add: flag_d04_def Let_def split: option.splits)

lemma qflag_flag_d05:
  "qflag (flag_d05 df) =
     add_flag 8 (case gldas_precipitation df of None \<Rightarrow> []
                 | Some gp \<Rightarrow> mask_index (rise_mask (diff 1 (soil_moisture df))
                     (diff 24 (soil_moisture df)) (std_x2_of (soil_moisture df))
                     (rolling_sum 1 24 gp) 0.2)) (qflag df)"
  by (simp add: flag_d05_def Let_def split: option.splits)

lemma blank_eq_iff:
  "blank a = blank b \<longleftrightarrow>
     soil_moisture a = soil_moisture b \<and> length (qflag a) = length (qflag b) \<and>
     soil_temperature a = soil_temperature b \<and> air_temperature a = air_temperature b \<and>
     gldas_soil_temperature a = gldas_soil_temperature b \<and>
     precipitation a = precipitation b \<and> gldas_precipitation a = gldas_precipitation b \<and>
     deriv2 a = deriv2 b"
  by (auto simp: blank_def)

lemma blank_blank [simp]: "blank (blank df) = blank df"
  by (simp add: blank_eq_iff) (simp add: blank_def)

lemma flag_d06_index:
  assumes "deriv2 df = Some d2"
  shows "\<exists>idx. \<forall>df2. soil_moisture df2 = soil_moisture df \<longrightarrow> deriv2 df2 = Some d2 \<longrightarrow>
     (\<exists>df2'. flag_d06 df2 = Inr df2' \<and> qflag df2' = add_flag 9 idx (qflag df2))"
proof -
  obtain c3 c4 where c: "criteria3_of (soil_moisture df) = Inr c3"
      "criteria4_of (soil_moisture df) = Inr c4"
    using criteria3_of_total criteria4_of_total by blast
  let ?sp = "spike_mask (criteria1_of (soil_moisture df)) (criteria2_of d2) c3 c4 (spike_2h_of c4)"
  have "\<exists>df2'. flag_d06 df2 = Inr df2' \<and>
      qflag df2' = add_flag 9 (spike_index ?sp (spike_2h_of c4)) (qflag df2)"
    if "soil_moisture df2 = soil_moisture df" "deriv2 df2 = Some d2" for df2
    using that c by (simp add: flag_d06_def Let_def)
  then show ?thesis by blast
qed

lemma index_simple:
  assumes "\<And>df2. blank df2 = blank df \<Longrightarrow> qflag (F df2) = add_flag c idx (qflag df2)"
  shows "\<exists>c idx. \<forall>df2. blank df2 = blank df \<longrightarrow>
     (\<exists>df2'. Inr (F df2) = (Inr df2' :: py_error + dataframe) \<and>
        qflag df2' = add_flag c idx (qflag df2))"
  using assms by blast

lemma run_index:
  assumes "run d df = Inr df'"
  shows "\<exists>c idx. \<forall>df2. blank df2 = blank df \<longrightarrow>
     (\<exists>df2'. run d df2 = Inr df2' \<and> qflag df2' = add_flag c idx (qflag df2))"
proof (cases d)
  case C01
  show ?thesis unfolding C01 run.simps
    by (rule index_simple) (simp add: qflag_flag_c01 blank_eq_iff)
next
  case C02
  show ?thesis unfolding C02 run.simps
    by (rule index_simple) (simp add: qflag_flag_c02 blank_eq_iff)
next
  case (C03 hwsd)
  show ?thesis unfolding C03 run.simps
    by (rule index_simple [where c = 3 and idx = "if falsy hwsd then []
          else mask_index (map (\<lambda>x. cgt x hwsd) (soil_moisture df))"])
      (simp add: qflag_flag_c03' blank_eq_iff)
next
  case D01
  show ?thesis unfolding D01 run.simps
    by (rule index_simple) (simp add: qflag_flag_d01 blank_eq_iff)
next
  case D02
  show ?thesis unfolding D02 run.simps
    by (rule index_simple) (simp add: qflag_flag_d02 blank_eq_iff)
next
  case D03
  show ?thesis unfolding D03 run.simps
    by (rule index_simple) (simp add: qflag_flag_d03 blank_eq_iff)
next
  case D04
  show ?thesis unfolding D04 run.simps
    by (rule index_simple [where c = 7 and idx = "case precipitation df of None \<Rightarrow> []
          | Some p \<Rightarrow> mask_index (rise_mask (diff 1 (soil_moisture df))
              (diff 24 (soil_moisture df)) (std_x2_of (soil_moisture df)) p 0.2)"])
      (simp add: qflag_flag_d04 blank_eq_iff cong: option.case_cong)
next
  case D05
  show ?thesis unfolding D05 run.simps
    by (rule index_simple [where c = 8 and idx = "case gldas_precipitation df of None \<Rightarrow> []
          | Some gp \<Rightarrow> mask_index (rise_mask (diff 1 (soil_moisture df))
              (diff 24 (soil_moisture df)) (std_x2_of (soil_moisture df))
              (rolling_sum 1 24 gp) 0.2)"])
      (simp add: qflag_flag_d05 blank_eq_iff cong: option.case_cong)
next
  case D06
  from assms D06 obtain d2 where d2: "deriv2 df = Some d2"
    by (cases "deriv2 df") (auto simp: flag_d06_AttributeError)
  from flag_d06_index [OF d2] obtain idx where
    "\<forall>df2. soil_moisture df2 = soil_moisture df \<longrightarrow> deriv2 df2 = Some d2 \<longrightarrow>
      (\<exists>df2'. flag_d06 df2 = Inr df2' \<and> qflag df2' = add_flag 9 idx (qflag df2))"
    by blast
  then show ?thesis
    unfolding D06 using d2 by (intro exI [of _ 9] exI [of _ idx]) (simp add: blank_eq_iff)
qed

lemma add_flag_union:
  "t < length q \<Longrightarrow>
   add_flag c idx q ! t = q ! t \<union> add_flag c idx (replicate (length q) {}) ! t"
  by (simp add: nth_add_flag)

lemma run_qflag:
  assumes "run d df = Inr df'"
  shows "blank df' = blank df \<and> length (qflag df') = length (qflag df) \<and>
     (\<forall>t<length (qflag df). qflag df' ! t = qflag df ! t \<union> fired d df t)"
proof -
  obtain c idx where ix: "\<forall>df2. blank df2 = blank df \<longrightarrow>
     (\<exists>df2'. run d df2 = Inr df2' \<and> qflag df2' = add_flag c idx (qflag df2))"
    using run_index [OF assms] by blast
  have q: "qflag df' = add_flag c idx (qflag df)"
    using ix assms by force
  obtain f where f: "run d (blank df) = Inr f"
    and qf: "qflag f = add_flag c idx (qflag (blank df))"
    using ix blank_blank by blast
  have fired: "fired d df t = add_flag c idx (replicate (length (qflag df)) {}) ! t" for t
    by (simp add: fired_def f qf) (simp add: blank_def)
  have len: "length (qflag df') = length (qflag df)"
    by (simp add: q)
  have rows: "\<forall>t<length (qflag df). qflag df' ! t = qflag df ! t \<union> fired d df t"
    using add_flag_union [of _ "qflag df" c idx] by (simp add: q fired)
  have "soil_moisture df' = soil_moisture df \<and> soil_temperature df' = soil_temperature df \<and>
     air_temperature df' = air_temperature df \<and>
     gldas_soil_temperature df' = gldas_soil_temperature df \<and>
     precipitation df' = precipitation df \<and> gldas_precipitation df' = gldas_precipitation df \<and>
     deriv2 df' = deriv2 df"
  proof (cases d)
    case D06
    from assms D06 obtain d2 where d2: "deriv2 df = Some d2"
      by (cases "deriv2 df") (auto simp: flag_d06_AttributeError)
    from flag_d06_Inr [OF d2] assms D06 show ?thesis by auto
  qed (use assms in \<open>auto simp: flag_c01_def flag_c02_def flag_c03_def flag_d01_def flag_d02_def
      flag_d03_def flag_d04_def flag_d05_def Let_def split: option.splits if_splits\<close>)
  then have "blank df' = blank df"
    using len by (simp add: blank_eq_iff)
  with len rows show ?thesis by blast
qed

lemma run_total: "deriv2 df \<noteq> None \<Longrightarrow> \<exists>df'. run d df = Inr df'"
proof (cases d)
  case D06
  assume "deriv2 df \<noteq> None"
  then obtain d2 where "deriv2 df = Some d2" by blast
  from flag_d06_Inr [OF this] show ?thesis unfolding D06 by auto
qed simp_all

lemma deriv2_run: "run d df = Inr df' \<Longrightarrow> deriv2 df' = deriv2 df"
  using run_qflag [of d df df'] by (simp add: blank_eq_iff)

lemma fired_blank: "blank a = blank b \<Longrightarrow> fired d a = fired d b"
  by (simp add: fired_def fun_eq_iff)

lemma run_all_qflag:
  "deriv2 df \<noteq> None \<Longrightarrow>
   \<exists>df'. run_all ds df = Inr df' \<and> blank df' = blank df \<and>
     length (qflag df') = length (qflag df) \<and>
     (\<forall>t<length (qflag df). qflag df' ! t = qflag df ! t \<union> (\<Union>d\<in>set ds. fired d df t))"
proof (induction ds arbitrary: df)
  case Nil
  then show ?case by simp
next
  case (Cons d ds)
  obtain df1 where r1: "run d df = Inr df1"
    using run_total [OF Cons.prems] by blast
  have b1: "blank df1 = blank df" and l1: "length (qflag df1) = length (qflag df)"
    and q1: "\<forall>t<length (qflag df). qflag df1 ! t = qflag df ! t \<union> fired d df t"
    using run_qflag [OF r1] by auto
  have "deriv2 df1 \<noteq> None"
    using deriv2_run [OF r1] Cons.prems by simp
  from Cons.IH [OF this] obtain df' where r: "run_all ds df1 = Inr df'"
    and b: "blank df' = blank df1" and l: "length (qflag df') = length (qflag df1)"
    and q: "\<forall>t<length (qflag df1). qflag df' ! t = qflag df1 ! t \<union> (\<Union>d\<in>set ds. fired d df1 t)"
    by blast
  have f: "fired d' df1 = fired d' df" for d'
    by (rule fired_blank [OF b1])
  have "\<forall>t<length (qflag df). qflag df' ! t = qflag df ! t \<union> (\<Union>d\<in>set (d # ds). fired d df t)"
    using q q1 l1 by (auto simp: f)
  then show ?case
    using r r1 b b1 l l1 by simp
qed

lemma flagit_run_all: "flagit df = run_all pipeline df"
  by (simp add: flagit_def pipeline_def split: sum.splits)

lemma deriv2_flags [simp]:
  "deriv2 (flag_c01 df) = deriv2 df" "deriv2 (flag_c02 df) = deriv2 df"
  "deriv2 (flag_c03 df h) = deriv2 df" "deriv2 (flag_d01 df) = deriv2 df"
  "deriv2 (flag_d02 df) = deriv2 df" "deriv2 (flag_d03 df) = deriv2 df"
  "deriv2 (flag_d04 df) = deriv2 df" "deriv2 (flag_d05 df) = deriv2 df"
  using deriv2_run [of C01 df] deriv2_run [of C02 df] deriv2_run [of "C03 h" df]
    deriv2_run [of D01 df] deriv2_run [of D02 df] deriv2_run [of D03 df]
    deriv2_run [of D04 df] deriv2_run [of D05 df]
  by simp_all

lemma flagit_AttributeError: "deriv2 df = None \<Longrightarrow> flagit df = Inl AttributeError"
  by (simp add: flagit_def flag_d06_AttributeError)

lemma run_timestamps: "run d df = Inr df' \<Longrightarrow> timestamps df' = timestamps df \<and> deriv1 df' = deriv1 df"
proof (cases d)
  case D06
  assume r: "run d df = Inr df'"
  with D06 obtain d2 where d2: "deriv2 df = Some d2"
    by (cases "deriv2 df") (auto simp: flag_d06_AttributeError)
  from flag_d06_Inr [OF d2] r D06 show ?thesis by auto
qed (auto simp: flag_c01_def flag_c02_def flag_c03_def flag_d01_def flag_d02_def
      flag_d03_def flag_d04_def flag_d05_def Let_def split: option.splits if_splits)

section \<open>Frame, order and repetition\<close>

text \<open>
  C8.  Running any detector leaves the timestamps, \<open>soil_moisture\<close> and the five optional
  input columns as they were; the flag column keeps its length, and the flag set of every
  row after the run contains the set before it: codes are added, never removed.
\<close>

theorem detector_frame:
  "run d df = Inr df' \<Longrightarrow>
   timestamps df' = timestamps df \<and> soil_moisture df' = soil_moisture df \<and>
   soil_temperature df' = soil_temperature df \<and> air_temperature df' = air_temperature df \<and>
   gldas_soil_temperature df' = gldas_soil_temperature df \<and>
   precipitation df' = precipitation df \<and> gldas_precipitation df' = gldas_precipitation df \<and>
   length (qflag df') = length (qflag df) \<and>
   (\<forall>t<length (qflag df). qflag df ! t \<subseteq> qflag df' ! t)"
  using run_qflag [of d df df'] run_timestamps [of d df df']
  by (simp add: blank_eq_iff)

theorem detector_frame_witness:
  "\<exists>df'. run D06 (apply_savgol (table_of plateau)) = Inr df' \<and>
     timestamps df' = map int [0..<25] \<and> soil_moisture df' = plateau \<and>
     precipitation df' = None \<and> length (qflag df') = 25 \<and>
     qflag (apply_savgol (table_of plateau)) ! 13 \<subseteq> qflag df' ! 13"
proof -
  let ?T = "apply_savgol (table_of plateau)"
  have "deriv2 ?T \<noteq> None"
    by (simp add: plateau_table)
  then obtain df' where r: "run D06 ?T = Inr df'"
    using run_total by blast
  have T: "timestamps ?T = map int [0..<25]" "soil_moisture ?T = plateau" "precipitation ?T = None"
    by (simp_all add: apply_savgol_def table_of_def plateau_def)
  show ?thesis
    using detector_frame [OF r] r by (simp add: T plateau_table)
qed

text \<open>
  C9.  On a table whose derivatives have been computed: running a detector a second time
  leaves every flag set as the first run left it; two lists of detectors that are
  permutations of each other end with the same flag sets; and \<open>flagit\<close> is the run of
  the pipeline list, so every order of the pipeline's detectors ends as \<open>flagit\<close> does.
\<close>

theorem detectors_commute_idempotent:
  assumes "deriv2 df \<noteq> None"
  shows "(\<exists>df1 df2. run d df = Inr df1 \<and> run d df1 = Inr df2 \<and> qflag df2 = qflag df1) \<and>
     (mset ds' = mset ds \<longrightarrow>
        (\<exists>a b. run_all ds df = Inr a \<and> run_all ds' df = Inr b \<and> qflag a = qflag b)) \<and>
     flagit df = run_all pipeline df"
proof -
  obtain df1 where r1: "run d df = Inr df1"
    using run_total [OF assms] by blast
  have b1: "blank df1 = blank df" and l1: "length (qflag df1) = length (qflag df)"
    and q1: "\<forall>t<length (qflag df). qflag df1 ! t = qflag df ! t \<union> fired d df t"
    using run_qflag [OF r1] by auto
  have "deriv2 df1 \<noteq> None"
    using deriv2_run [OF r1] assms by simp
  then obtain df2 where r2: "run d df1 = Inr df2"
    using run_total by blast
  have l2: "length (qflag df2) = length (qflag df1)"
    and q2: "\<forall>t<length (qflag df1). qflag df2 ! t = qflag df1 ! t \<union> fired d df1 t"
    using run_qflag [OF r2] by auto
  have "fired d df1 = fired d df"
    by (rule fired_blank [OF b1])
  then have "qflag df2 = qflag df1"
    using l1 l2 q1 q2 by (intro nth_equalityI) auto
  with r1 r2 have idem: "\<exists>df1 df2. run d df = Inr df1 \<and> run d df1 = Inr df2 \<and> qflag df2 = qflag df1"
    by blast
  have comm: "\<exists>a b. run_all ds df = Inr a \<and> run_all ds' df = Inr b \<and> qflag a = qflag b"
    if "mset ds' = mset ds"
  proof -
    have s: "set ds' = set ds"
      using that by (rule mset_eq_setD)
    obtain a where a: "run_all ds df = Inr a" "length (qflag a) = length (qflag df)"
      "\<forall>t<length (qflag df). qflag a ! t = qflag df ! t \<union> (\<Union>d\<in>set ds. fired d df t)"
      using run_all_qflag [OF assms, of ds] by blast
    obtain b where b: "run_all ds' df = Inr b" "length (qflag b) = length (qflag df)"
      "\<forall>t<length (qflag df). qflag b ! t = qflag df ! t \<union> (\<Union>d\<in>set ds'. fired d df t)"
      using run_all_qflag [OF assms, of ds'] by blast
    have "qflag a = qflag b"
      using a(2,3) b(2,3) by (intro nth_equalityI) (auto simp: s)
    with a(1) b(1) show ?thesis by blast
  qed
  show ?thesis
    using idem comm flagit_run_all by blast
qed

theorem detectors_commute_idempotent_witness:
  "deriv2 (apply_savgol (table_of plateau)) \<noteq> None \<and>
   mset (rev pipeline) = mset pipeline \<and>
   (\<exists>df1 df2. run D06 (apply_savgol (table_of plateau)) = Inr df1 \<and> run D06 df1 = Inr df2 \<and>
      qflag df2 = qflag df1) \<and>
   (\<exists>a b. run_all pipeline (apply_savgol (table_of plateau)) = Inr a \<and>
      run_all (rev pipeline) (apply_savgol (table_of plateau)) = Inr b \<and> qflag a = qflag b) \<and>
   flagit (apply_savgol (table_of plateau)) = run_all pipeline (apply_savgol (table_of plateau))"
proof -
  have d: "deriv2 (apply_savgol (table_of plateau)) \<noteq> None"
    by (simp add: plateau_table)
  have m: "mset (rev pipeline) = mset pipeline"
    by simp
  show ?thesis
    using detectors_commute_idempotent [OF d, of D06 "rev pipeline" pipeline] d m by simp
qed

section \<open>Exceptions\<close>

text \<open>
  C5, as stated, fails: the claim is that no detector and no run of \<open>flagit\<close> raises on a
  table with \<open>soil_moisture\<close>, \<open>qflag\<close> and any of the optional columns.  On such a table
  \<open>flag_d06\<close> reads \<open>df.deriv2\<close>, a column only \<open>apply_savgol\<close> writes, and \<open>flagit\<close> calls
  \<open>flag_d06\<close> without calling \<open>apply_savgol\<close>: both raise \<open>AttributeError\<close>.
\<close>

theorem pipeline_no_raise_counterexample:
  "deriv2 (table_of [Some 1, Some 2, Some 1]) = None \<and>
   flagit (table_of [Some 1, Some 2, Some 1]) = Inl AttributeError \<and>
   run D06 (table_of [Some 1, Some 2, Some 1]) = Inl AttributeError"
proof -
  have "deriv2 (table_of [Some 1, Some 2, Some 1]) = None"
    by (simp add: table_of_def)
  then show ?thesis
    by (simp add: flagit_AttributeError flag_d06_AttributeError)
qed

text \<open>
  C5, amended.  On a table that also has the \<open>deriv2\<close> column, \<open>flagit\<close> returns and so does
  every detector; a detector that fires at no row leaves the flag column as it was.
\<close>

theorem pipeline_no_raise:
  assumes "deriv2 df \<noteq> None"
  shows "(\<exists>df'. flagit df = Inr df') \<and>
     (\<exists>df'. run d df = Inr df' \<and>
        ((\<forall>t<length (qflag df). fired d df t = {}) \<longrightarrow> qflag df' = qflag df))"
proof -
  have "\<exists>df'. flagit df = Inr df'"
    using run_all_qflag [OF assms, of pipeline] by (auto simp: flagit_run_all)
  moreover obtain df' where r: "run d df = Inr df'"
    using run_total [OF assms] by blast
  have "qflag df' = qflag df" if "\<forall>t<length (qflag df). fired d df t = {}"
    using run_qflag [OF r] that by (intro nth_equalityI) auto
  ultimately show ?thesis
    using r by blast
qed

theorem pipeline_no_raise_witness:
  "deriv2 (apply_savgol (table_of plateau)) \<noteq> None \<and>
   (\<exists>df'. flagit (apply_savgol (table_of plateau)) = Inr df') \<and>
   (\<exists>df'. run D04 (apply_savgol (table_of plateau)) = Inr df' \<and> qflag df' = replicate 25 {})"
proof -
  let ?T = "apply_savgol (table_of plateau)"
  have d: "deriv2 ?T \<noteq> None"
    by (simp add: plateau_table)
  have "fired D04 ?T t = {}" if "t < length (qflag ?T)" for t
    using that
    by (simp add: fired_def flag_d04_def blank_def apply_savgol_def table_of_def)
  then show ?thesis
    using pipeline_no_raise [OF d, of D04] d by (auto simp: plateau_table)
qed

section \<open>Rise without precipitation\<close>

lemma nth_std_x2:
  "t < length sm \<Longrightarrow>
   std_x2_of sm ! t =
     (let v = dropna (map ((!) sm) [t - 24..<Suc t])
      in if 2 \<le> length v then Some (2 * sqrt (ssqdm v / (real (length v) - 1))) else None)"
  by (auto simp: std_x2_of_def times2_def rolling_std_def trailing_nth Let_def simp del: upt_Suc)

lemma length_std_x2 [simp]: "length (std_x2_of sm) = length sm"
  by (simp add: std_x2_of_def)

lemma length_rise_mask:
  "length r1 = n \<Longrightarrow> length r24 = n \<Longrightarrow> length s = n \<Longrightarrow> length p = n \<Longrightarrow>
   length (rise_mask r1 r24 s p mp) = n"
  by (simp add: rise_mask_def)

lemma nth_rise_mask:
  "length r1 = n \<Longrightarrow> length r24 = n \<Longrightarrow> length s = n \<Longrightarrow> length p = n \<Longrightarrow> t < n \<Longrightarrow>
   rise_mask r1 r24 s p mp ! t =
     (cgt (r1 ! t) (Some 0) \<and> cgt (r24 ! t) (s ! t) \<and> clt (p ! t) (Some mp))"
  by (simp add: rise_mask_def)

lemma flag_d04_rows:
  assumes p: "precipitation df = Some p" and wf: "wf_table df" and t: "t < nrows df"
  shows "qflag (flag_d04 df) ! t =
     (if cgt (diff 1 (soil_moisture df) ! t) (Some 0) \<and>
         cgt (diff 24 (soil_moisture df) ! t) (std_x2_of (soil_moisture df) ! t) \<and>
         clt (p ! t) (Some 0.2)
      then insert 7 (qflag df ! t) else qflag df ! t)"
proof -
  let ?sm = "soil_moisture df"
  let ?m = "rise_mask (diff 1 ?sm) (diff 24 ?sm) (std_x2_of ?sm) p 0.2"
  have lp: "length p = nrows df" by (rule wf_table_lengths(3) [OF wf p])
  have lq: "length (qflag df) = nrows df" by (rule wf_table_lengths(1) [OF wf])
  have lm: "length ?m = nrows df"
    by (rule length_rise_mask) (simp_all add: nrows_def lp [unfolded nrows_def])
  have mt: "?m ! t = (cgt (diff 1 ?sm ! t) (Some 0) \<and>
         cgt (diff 24 ?sm ! t) (std_x2_of ?sm ! t) \<and> clt (p ! t) (Some 0.2))"
    by (rule nth_rise_mask [OF _ _ _ _ t]) (simp_all add: nrows_def lp [unfolded nrows_def])
  have "qflag (flag_d04 df) ! t = (if ?m ! t then insert 7 (qflag df ! t) else qflag df ! t)"
    using t lq lm by (simp add: qflag_flag_d04 p nth_add_flag)
  then show ?thesis
    unfolding mt .
qed

lemma dry_rise_table:
  "precipitation dry_rise = Some (replicate 25 (Some 0))"
  "wf_table dry_rise" "nrows dry_rise = 25"
  "qflag dry_rise = replicate 25 {}"
  "soil_moisture dry_rise = replicate 24 (Some 10) @ [Some 15]"
  by (simp_all add: dry_rise_def table_of_def wf_table_def col_ok_def nrows_def)

lemma dry_rise_window:
  "dropna (map ((!) (replicate 24 (Some 10) @ [Some 15])) [0..<25]) = replicate 24 10 @ [15]"
  "dropna (map ((!) (replicate 24 (Some 10) @ [Some 15])) [0..<Suc 0]) = [10]"
  "ssqdm (replicate 24 10 @ [15]) = 24"
  by code_simp+

lemma dry_rise_std:
  "std_x2_of (soil_moisture dry_rise) ! 24 = Some 2"
  "std_x2_of (soil_moisture dry_rise) ! 0 = None"
  by (simp_all add: nth_std_x2 dry_rise_table dry_rise_window del: upt_Suc)

text \<open>
  C1.  When the table has no \<open>precipitation\<close> column, \<open>flag_d04\<close> returns it as it is, so
  flag 7 is added nowhere.  When it has one, \<open>flag_d04\<close> adds flag 7 to exactly the rows
  \<open>t\<close> with \<open>rise1h[t] > 0\<close> and \<open>rise24h[t] > std_x2[t]\<close> and \<open>precipitation[t] < 0.2\<close>,
  where \<open>rise1h[t] = soil_moisture[t] - soil_moisture[t-1]\<close>, \<open>rise24h[t] =
  soil_moisture[t] - soil_moisture[t-24]\<close> (NaN where the earlier row does not exist or a
  sample is missing), \<open>std_x2\<close> is the column the detector writes, and the precipitation
  is the value of the current hour.
\<close>

theorem flag_d04_rise_rule:
  "(precipitation df = None \<longrightarrow> flag_d04 df = df) \<and>
   (precipitation df = Some p \<longrightarrow> wf_table df \<longrightarrow>
     (\<exists>s r24 r1. std_x2 (flag_d04 df) = Some s \<and> rise24h (flag_d04 df) = Some r24 \<and>
        rise1h (flag_d04 df) = Some r1 \<and>
        (\<forall>t<nrows df.
           r1 ! t = (if 1 \<le> t then csub (soil_moisture df ! t) (soil_moisture df ! (t - 1))
                     else None) \<and>
           r24 ! t = (if 24 \<le> t then csub (soil_moisture df ! t) (soil_moisture df ! (t - 24))
                      else None) \<and>
           qflag (flag_d04 df) ! t =
             (if cgt (r1 ! t) (Some 0) \<and> cgt (r24 ! t) (s ! t) \<and> clt (p ! t) (Some 0.2)
              then insert 7 (qflag df ! t) else qflag df ! t))))"
proof (intro conjI impI)
  assume "precipitation df = None"
  then show "flag_d04 df = df"
    by (simp add: flag_d04_def)
next
  assume p: "precipitation df = Some p" and wf: "wf_table df"
  let ?sm = "soil_moisture df"
  have cols: "std_x2 (flag_d04 df) = Some (std_x2_of ?sm)"
    "rise24h (flag_d04 df) = Some (diff 24 ?sm)" "rise1h (flag_d04 df) = Some (diff 1 ?sm)"
    by (simp_all add: flag_d04_def p Let_def)
  have rows: "diff 1 ?sm ! t = (if 1 \<le> t then csub (?sm ! t) (?sm ! (t - 1)) else None) \<and>
      diff 24 ?sm ! t = (if 24 \<le> t then csub (?sm ! t) (?sm ! (t - 24)) else None) \<and>
      qflag (flag_d04 df) ! t =
        (if cgt (diff 1 ?sm ! t) (Some 0) \<and> cgt (diff 24 ?sm ! t) (std_x2_of ?sm ! t) \<and>
            clt (p ! t) (Some 0.2)
         then insert 7 (qflag df ! t) else qflag df ! t)" if "t < nrows df" for t
    using that flag_d04_rows [OF p wf that] nth_diff [of t ?sm 1] nth_diff [of t ?sm 24]
    by (simp add: nrows_def)
  show "\<exists>s r24 r1. std_x2 (flag_d04 df) = Some s \<and> rise24h (flag_d04 df) = Some r24 \<and>
        rise1h (flag_d04 df) = Some r1 \<and>
        (\<forall>t<nrows df.
           r1 ! t = (if 1 \<le> t then csub (?sm ! t) (?sm ! (t - 1)) else None) \<and>
           r24 ! t = (if 24 \<le> t then csub (?sm ! t) (?sm ! (t - 24)) else None) \<and>
           qflag (flag_d04 df) ! t =
             (if cgt (r1 ! t) (Some 0) \<and> cgt (r24 ! t) (s ! t) \<and> clt (p ! t) (Some 0.2)
              then insert 7 (qflag df ! t) else qflag df ! t))"
    using cols rows by blast
qed

theorem flag_d04_rise_rule_witness:
  "precipitation dry_rise = Some (replicate 25 (Some 0)) \<and> wf_table dry_rise \<and>
   qflag (flag_d04 dry_rise) ! 24 = {7} \<and> qflag (flag_d04 dry_rise) ! 23 = {} \<and>
   precipitation (table_of [Some 1, Some 9]) = None \<and>
   flag_d04 (table_of [Some 1, Some 9]) = table_of [Some 1, Some 9]"
proof -
  have none: "precipitation (table_of [Some 1, Some 9]) = None"
    by (simp add: table_of_def)
  have absent: "flag_d04 (table_of [Some 1, Some 9]) = table_of [Some 1, Some 9]"
    using flag_d04_rise_rule [of "table_of [Some 1, Some 9]" "[]"] none by simp
  obtain s r24 r1 where s: "std_x2 (flag_d04 dry_rise) = Some s"
    and rows: "\<forall>t<nrows dry_rise.
           r1 ! t = (if 1 \<le> t then csub (soil_moisture dry_rise ! t) (soil_moisture dry_rise ! (t - 1))
                     else None) \<and>
           r24 ! t = (if 24 \<le> t then csub (soil_moisture dry_rise ! t) (soil_moisture dry_rise ! (t - 24))
                      else None) \<and>
           qflag (flag_d04 dry_rise) ! t =
             (if cgt (r1 ! t) (Some 0) \<and> cgt (r24 ! t) (s ! t) \<and>
                 clt (replicate 25 (Some 0) ! t) (Some 0.2)
              then insert 7 (qflag dry_rise ! t) else qflag dry_rise ! t)"
    using flag_d04_rise_rule [of dry_rise "replicate 25 (Some 0)"] dry_rise_table(1,2) by blast
  have "s = std_x2_of (soil_moisture dry_rise)"
    using s by (simp add: flag_d04_def dry_rise_table(1) Let_def)
  then have s24: "s ! 24 = Some 2"
    by (simp add: dry_rise_std)
  have sm: "soil_moisture dry_rise ! 24 = Some 15" "soil_moisture dry_rise ! 23 = Some 10"
    "soil_moisture dry_rise ! 22 = Some 10" "soil_moisture dry_rise ! 0 = Some 10"
    by (simp_all add: dry_rise_table nth_append)
  have r24: "r1 ! 24 = Some 5" "r24 ! 24 = Some 5"
    "qflag (flag_d04 dry_rise) ! 24 =
       (if cgt (r1 ! 24) (Some 0) \<and> cgt (r24 ! 24) (s ! 24) \<and>
           clt (replicate 25 (Some 0) ! 24) (Some 0.2)
        then insert 7 (qflag dry_rise ! 24) else qflag dry_rise ! 24)"
    using rows [rule_format, of 24] by (simp_all add: dry_rise_table(3) sm)
  have r23: "r1 ! 23 = Some 0"
    "qflag (flag_d04 dry_rise) ! 23 =
       (if cgt (r1 ! 23) (Some 0) \<and> cgt (r24 ! 23) (s ! 23) \<and>
           clt (replicate 25 (Some 0) ! 23) (Some 0.2)
        then insert 7 (qflag dry_rise ! 23) else qflag dry_rise ! 23)"
    using rows [rule_format, of 23] by (simp_all add: dry_rise_table(3) sm)
  have "qflag (flag_d04 dry_rise) ! 24 = {7}"
    unfolding r24(3) by (simp add: r24(1,2) s24 dry_rise_table(4))
  moreover have "qflag (flag_d04 dry_rise) ! 23 = {}"
    unfolding r23(2) by (simp add: r23(1) dry_rise_table(4))
  ultimately show ?thesis
    using none absent dry_rise_table(1,2) by simp
qed

text \<open>
  C7, as stated, fails: the claim is that \<open>std_x2[t]\<close> is present whenever the trailing
  window holds at least one sample.  At the first row the window holds exactly one
  sample, and \<open>std_x2\<close> is NaN there: the standard deviation of pandas divides by the
  number of samples less one.
\<close>

theorem std_x2_rule_counterexample:
  "dropna (trailing 25 (soil_moisture dry_rise) 0) = [10] \<and>
   cell_of (std_x2 (flag_d04 dry_rise)) 0 = Some None"
proof -
  have "dropna (trailing 25 (soil_moisture dry_rise) 0) = [10]"
    by (simp add: dry_rise_table trailing_def)
  moreover have "cell_of (std_x2 (flag_d04 dry_rise)) 0 = Some None"
    by (simp add: cell_of_def flag_d04_def dry_rise_table(1) Let_def dry_rise_std)
  ultimately show ?thesis by simp
qed

text \<open>
  C7, amended.  Let \<open>v\<close> be the samples present among the rows \<open>t - 24 .. t\<close> of
  \<open>soil_moisture\<close> (fewer than 25 rows near the start).  When \<open>v\<close> has at least two
  samples, \<open>std_x2[t]\<close> is present and is twice the sample standard deviation of \<open>v\<close>, the
  square root of the sum of squared deviations from the mean over \<open>length v - 1\<close>; with
  fewer than two samples it is NaN.  The same holds of \<open>gl_std_x2\<close> in \<open>flag_d05\<close>.
\<close>

theorem std_x2_rule:
  assumes "t < nrows df" and "v = dropna (map ((!) (soil_moisture df)) [t - 24..<Suc t])"
  shows "(precipitation df = Some p \<longrightarrow>
       cell_of (std_x2 (flag_d04 df)) t =
         Some (if 2 \<le> length v then Some (2 * sqrt (ssqdm v / (real (length v) - 1))) else None)) \<and>
     (gldas_precipitation df = Some gp \<longrightarrow>
       cell_of (gl_std_x2 (flag_d05 df)) t =
         Some (if 2 \<le> length v then Some (2 * sqrt (ssqdm v / (real (length v) - 1))) else None))"
proof -
  have "std_x2_of (soil_moisture df) ! t =
      (if 2 \<le> length v then Some (2 * sqrt (ssqdm v / (real (length v) - 1))) else None)"
    using assms by (simp add: nth_std_x2 nrows_def Let_def del: upt_Suc)
  then show ?thesis
    by (simp add: cell_of_def flag_d04_def flag_d05_def Let_def)
qed

theorem std_x2_rule_witness:
  "(24::nat) < nrows dry_rise \<and>
   replicate 24 10 @ [15] = dropna (map ((!) (soil_moisture dry_rise)) [24 - 24..<Suc 24]) \<and>
   precipitation dry_rise = Some (replicate 25 (Some 0)) \<and>
   cell_of (std_x2 (flag_d04 dry_rise)) 24 = Some (Some 2)"
proof -
  have v: "replicate 24 10 @ [15] = dropna (map ((!) (soil_moisture dry_rise)) [24 - 24..<Suc 24])"
    by (simp add: dry_rise_table dry_rise_window del: upt_Suc)
  have n: "(24::nat) < nrows dry_rise"
    by (simp add: dry_rise_table)
  have "cell_of (std_x2 (flag_d04 dry_rise)) 24 =
      Some (if 2 \<le> length (replicate 24 (10::real) @ [15])
            then Some (2 * sqrt (ssqdm (replicate 24 10 @ [15]) /
                   (real (length (replicate 24 (10::real) @ [15])) - 1))) else None)"
    using std_x2_rule [OF n v, of "replicate 25 (Some 0)"] dry_rise_table(1) by blast
  then have "cell_of (std_x2 (flag_d04 dry_rise)) 24 = Some (Some 2)"
    by (simp add: dry_rise_window)
  then show ?thesis
    using v n dry_rise_table(1) by blast
qed

end
